theory Spec2Isabelle
  imports Main
begin

section \<open>Python strings\<close>

text \<open>
  A Python \<open>str\<close> is a sequence of code points. The model uses \<^typ>\<open>string\<close> and reads a
  \<^typ>\<open>char\<close> as the code point of the same number, so it covers the strings whose code
  points lie below 256 (ASCII and Latin-1). On that range \<open>str.strip()\<close> removes the code
  points 9-13, 28-32, 133 and 160 from both ends, and \<open>str.lower()\<close> maps A-Z and the
  Latin-1 capitals 192-222 (except the multiplication sign 215) to the code point 32 above.
\<close>

definition isspace :: "char \<Rightarrow> bool" where
  "isspace c =
     (let n = (of_char c :: nat)
      in (9 \<le> n \<and> n \<le> 13) \<or> (28 \<le> n \<and> n \<le> 32) \<or> n = 133 \<or> n = 160)"

definition lower_char :: "char \<Rightarrow> char" where
  "lower_char c =
     (let n = (of_char c :: nat)
      in if (65 \<le> n \<and> n \<le> 90) \<or> (192 \<le> n \<and> n \<le> 222 \<and> n \<noteq> 215)
         then char_of (n + 32) else c)"

definition lower :: "string \<Rightarrow> string" where
  "lower s = map lower_char s"

definition strip :: "string \<Rightarrow> string" where
  "strip s = rev (dropWhile isspace (rev (dropWhile isspace s)))"

definition startswith :: "string \<Rightarrow> string \<Rightarrow> bool" where
  "startswith s p = (take (length p) s = p)"


section \<open>The phone number library\<close>

text \<open>
  \<open>phonenumbers\<close> is an external package. The code uses two of its functions and one of its
  exceptions, so the model takes the package as a parameter: \<open>parse\<close> receives the string
  and the optional region and either raises \<open>NumberParseException\<close> or returns a number
  object of type \<open>'n\<close>; \<open>format_number\<close> turns a number object into text.
\<close>

datatype py_exception = NumberParseException

datatype PhoneNumberFormat = E164 | INTERNATIONAL | NATIONAL | RFC3966

record 'n phonenumbers =
  parse :: "string \<Rightarrow> string option \<Rightarrow> py_exception + 'n"
  format_number :: "'n \<Rightarrow> PhoneNumberFormat \<Rightarrow> string"


section \<open>cleanup_phone_numbers\<close>

text \<open>
  The loop state is the pair \<open>(seen, cleaned_phones)\<close>. The body of the \<open>try\<close> block is
  a computation that may raise; the \<open>except\<close> clause catches the exception and runs the
  fallback on the state the block started from (the block changes the state only after
  \<open>parse\<close> and \<open>format_number\<close> have returned).
\<close>

definition try_block ::
  "('n, 'a) phonenumbers_scheme \<Rightarrow> string \<Rightarrow> string set \<times> string list
     \<Rightarrow> py_exception + (string set \<times> string list)" where
  "try_block lib phone st =
     (case st of (seen, cleaned_phones) \<Rightarrow>
        let region = (if startswith (strip phone) ''+'' then None else Some ''IN'')
        in case parse lib phone region of
             Inl e \<Rightarrow> Inl e
           | Inr parsed \<Rightarrow>
               let formatted = format_number lib parsed INTERNATIONAL
               in if formatted \<notin> seen
                  then Inr (insert formatted seen, cleaned_phones @ [formatted])
                  else Inr (seen, cleaned_phones))"

definition phone_step ::
  "('n, 'a) phonenumbers_scheme \<Rightarrow> string \<Rightarrow> string set \<times> string list
     \<Rightarrow> string set \<times> string list" where
  "phone_step lib phone st =
     (case try_block lib phone st of
        Inr st' \<Rightarrow> st'
      | Inl NumberParseException \<Rightarrow>
          (case st of (seen, cleaned_phones) \<Rightarrow>
             if phone \<notin> seen
             then (insert phone seen, cleaned_phones @ [phone])
             else (seen, cleaned_phones)))"

definition cleanup_phone_numbers ::
  "('n, 'a) phonenumbers_scheme \<Rightarrow> string list \<Rightarrow> string list" where
  "cleanup_phone_numbers lib phones = snd (fold (phone_step lib) phones ({}, []))"


section \<open>cleanup_emails\<close>

definition email_step :: "string \<Rightarrow> string set \<times> string list \<Rightarrow> string set \<times> string list" where
  "email_step email st =
     (case st of (seen, cleaned_emails) \<Rightarrow>
        let cleaned_email = strip (lower email)
        in if cleaned_email \<notin> seen
           then (insert cleaned_email seen, cleaned_emails @ [cleaned_email])
           else (seen, cleaned_emails))"

definition cleanup_emails :: "string list \<Rightarrow> string list" where
  "cleanup_emails emails = snd (fold email_step emails ({}, []))"


section \<open>get_unique_contacts_count\<close>

text \<open>
  A stored document is a record of which the function reads the field \<open>phones\<close> only; the
  field may be missing (\<open>None\<close>). The other fields of a document live in the record
  extension. The collection is the list of its documents in the order the query
  enumerates them.
\<close>

record contact =
  phones :: "string list option"

text \<open>The query \<open>{"phones": {"$exists": True, "$ne": []}}\<close>.\<close>

definition find_with_phones :: "'a contact_scheme list \<Rightarrow> 'a contact_scheme list" where
  "find_with_phones contacts_collection =
     filter (\<lambda>doc. phones doc \<noteq> None \<and> phones doc \<noteq> Some []) contacts_collection"

text \<open>\<open>contact.get("phones", [])\<close>.\<close>

definition get_phones :: "'a contact_scheme \<Rightarrow> string list" where
  "get_phones contact = (case phones contact of None \<Rightarrow> [] | Some ps \<Rightarrow> ps)"

definition count_step :: "'a contact_scheme \<Rightarrow> int \<times> string set \<Rightarrow> int \<times> string set" where
  "count_step contact st =
     (case st of (unique_count, all_phones) \<Rightarrow>
        let contact_phones = set (get_phones contact)
        in (if contact_phones \<inter> all_phones = {} then unique_count + 1 else unique_count,
            all_phones \<union> contact_phones))"

definition get_unique_contacts_count :: "'a contact_scheme list \<Rightarrow> int \<times> string set" where
  "get_unique_contacts_count contacts_collection =
     fold count_step (find_with_phones contacts_collection) (0, {})"


section \<open>Derived notions used in the statements\<close>

text \<open>
  The canonical form of a phone entry is the dedup key the loop computes for it: the
  formatted number when \<open>parse\<close> returns, the entry itself when \<open>parse\<close> raises.
\<close>

definition canonical_phone :: "('n, 'a) phonenumbers_scheme \<Rightarrow> string \<Rightarrow> string" where
  "canonical_phone lib phone =
     (case parse lib phone (if startswith (strip phone) ''+'' then None else Some ''IN'') of
        Inl e \<Rightarrow> phone
      | Inr parsed \<Rightarrow> format_number lib parsed INTERNATIONAL)"

definition unparseable :: "('n, 'a) phonenumbers_scheme \<Rightarrow> string \<Rightarrow> bool" where
  "unparseable lib phone =
     (case parse lib phone (if startswith (strip phone) ''+'' then None else Some ''IN'') of
        Inl e \<Rightarrow> True
      | Inr parsed \<Rightarrow> False)"

definition canonical_email :: "string \<Rightarrow> string" where
  "canonical_email email = strip (lower email)"

text \<open>
  Both loops are instances of one rule: compute a key, append it unless it was seen.
\<close>

definition keep_first :: "('a \<Rightarrow> 'b) \<Rightarrow> 'a \<Rightarrow> 'b set \<times> 'b list \<Rightarrow> 'b set \<times> 'b list" where
  "keep_first key x st =
     (if key x \<notin> fst st then (insert (key x) (fst st), snd st @ [key x]) else st)"

definition dedup_keys :: "('a \<Rightarrow> 'b) \<Rightarrow> 'a list \<Rightarrow> 'b list" where
  "dedup_keys key xs = snd (fold (keep_first key) xs ({}, []))"

text \<open>
  Two small parsers to run the code on. With a region, both accept a string of digits (a
  national number, to which they prepend the country code 91); without a region, both
  accept \<open>+\<close> followed by at least three digits. A number object is the digit string
  with its country code; the international format puts \<open>+\<close> in front and a space after
  the two digits of the country code. The lenient parser ignores spaces in its input, so
  it parses what it formats; the strict parser accepts no spaces.
\<close>

definition is_digit :: "char \<Rightarrow> bool" where
  "is_digit c = (let n = (of_char c :: nat) in 48 \<le> n \<and> n \<le> 57)"

definition demo_parse :: "bool \<Rightarrow> string \<Rightarrow> string option \<Rightarrow> py_exception + string" where
  "demo_parse spaces s region =
     (let d = (if spaces then filter (\<lambda>c. c \<noteq> CHR '' '') s else s)
      in case region of
           Some r \<Rightarrow> if d \<noteq> [] \<and> list_all is_digit d then Inr (''91'' @ d)
                     else Inl NumberParseException
         | None \<Rightarrow>
             (case d of
                [] \<Rightarrow> Inl NumberParseException
              | c # t \<Rightarrow> if c = CHR ''+'' \<and> 2 < length t \<and> list_all is_digit t then Inr t
                         else Inl NumberParseException))"

definition demo_lib :: "bool \<Rightarrow> string phonenumbers" where
  "demo_lib spaces =
     \<lparr>parse = demo_parse spaces,
      format_number = (\<lambda>n fmt. ''+'' @ take 2 n @ '' '' @ drop 2 n)\<rparr>"

definition strict_lib :: "string phonenumbers" where
  "strict_lib = demo_lib False"

definition lenient_lib :: "string phonenumbers" where
  "lenient_lib = demo_lib True"

text \<open>
  The answers of the \<open>phonenumbers\<close> package on three German numbers in international
  notation, as a table; a number object is the national number as text, and every other
  string is outside the table (the table raises on it). After the country code 49 the
  package strips one national prefix \<open>0\<close>; a zero that follows it stays as the leading
  zero of the national number. The international format is \<open>+49\<close>, a space and the
  national number.
\<close>

definition observed_parse :: "string \<Rightarrow> string option \<Rightarrow> py_exception + string" where
  "observed_parse s region =
     (if region = None \<and> s = ''+49 005369'' then Inr ''05369''
      else if region = None \<and> (s = ''+49 05369'' \<or> s = ''+49 5369'') then Inr ''5369''
      else Inl NumberParseException)"

definition observed_lib :: "string phonenumbers" where
  "observed_lib = \<lparr>parse = observed_parse, format_number = (\<lambda>n fmt. ''+49 '' @ n)\<rparr>"


section \<open>Strings: lowering and trimming\<close>

lemma isspace_lower_char: "isspace (lower_char c) = isspace c"
  by (auto simp add: isspace_def lower_char_def Let_def)

lemma lower_char_idem: "lower_char (lower_char c) = lower_char c"
  by (auto simp add: lower_char_def Let_def)

lemma lower_idem: "lower (lower s) = lower s"
  by (simp add: lower_def lower_char_idem)

lemma dropWhile_isspace_lower:
  "dropWhile isspace (map lower_char s) = map lower_char (dropWhile isspace s)"
  by (induction s) (simp_all add: isspace_lower_char)

lemma strip_lower: "strip (lower s) = lower (strip s)"
  by (simp add: strip_def lower_def rev_map dropWhile_isspace_lower)

lemma dropWhile_rev_dropWhile:
  "dropWhile P (rev (dropWhile P (rev (dropWhile P xs)))) =
     rev (dropWhile P (rev (dropWhile P xs)))"
proof -
  define ys where "ys = dropWhile P xs"
  define zs where "zs = dropWhile P (rev ys)"
  have "dropWhile P (rev zs) = rev zs"
  proof (cases "zs = []")
    case True
    then show ?thesis by simp
  next
    case False
    have split: "rev ys = takeWhile P (rev ys) @ zs"
      by (simp add: zs_def)
    from False have "last (rev ys) = last zs"
      by (subst split) simp
    moreover from False split have "ys \<noteq> []"
      by auto
    ultimately have "hd ys = last zs"
      by (simp add: last_rev)
    moreover from \<open>ys \<noteq> []\<close> have "\<not> P (hd ys)"
      unfolding ys_def by (rule hd_dropWhile)
    ultimately have "\<not> P (hd (rev zs))"
      using False by (simp add: hd_rev)
    with False show ?thesis
      by (cases "rev zs") simp_all
  qed
  then show ?thesis
    by (simp add: ys_def zs_def)
qed

lemma strip_idem: "strip (strip s) = strip s"
  by (simp add: strip_def dropWhile_rev_dropWhile)

lemma canonical_email_idem: "canonical_email (canonical_email s) = canonical_email s"
  by (simp add: canonical_email_def strip_lower lower_idem strip_idem)


section \<open>The dedup rule\<close>

lemma fold_keep_first_seen:
  "fst (fold (keep_first key) xs st) = fst st \<union> key ` set xs"
  by (induction xs arbitrary: st) (auto simp add: keep_first_def)

lemma dedup_keys_Nil: "dedup_keys key [] = []"
  by (simp add: dedup_keys_def)

lemma dedup_keys_snoc:
  "dedup_keys key (xs @ [x]) =
     (if key x \<in> key ` set xs then dedup_keys key xs else dedup_keys key xs @ [key x])"
proof -
  have "fst (fold (keep_first key) xs ({}, [])) = key ` set xs"
    by (simp add: fold_keep_first_seen)
  then show ?thesis
    by (simp add: dedup_keys_def keep_first_def)
qed

lemma set_dedup_keys: "set (dedup_keys key xs) = key ` set xs"
  by (induction xs rule: rev_induct) (auto simp add: dedup_keys_Nil dedup_keys_snoc)

lemma distinct_dedup_keys: "distinct (dedup_keys key xs)"
  by (induction xs rule: rev_induct)
    (simp_all add: dedup_keys_Nil dedup_keys_snoc set_dedup_keys)

lemma dedup_keys_append_prefix:
  "\<exists>zs. dedup_keys key (xs @ ys) = dedup_keys key xs @ zs"
proof (induction ys rule: rev_induct)
  case Nil
  show ?case by simp
next
  case (snoc y ys)
  then obtain zs where zs: "dedup_keys key (xs @ ys) = dedup_keys key xs @ zs"
    by blast
  have "dedup_keys key (xs @ ys @ [y]) = dedup_keys key ((xs @ ys) @ [y])"
    by simp
  also have "\<dots> = dedup_keys key xs @ (if key y \<in> key ` set (xs @ ys) then zs else zs @ [key y])"
    unfolding dedup_keys_snoc zs by simp
  finally show ?case
    by blast
qed

lemma dedup_keys_index:
  "dedup_keys key xs =
     map (\<lambda>i. key (xs ! i))
       (filter (\<lambda>i. \<forall>j<i. key (xs ! j) \<noteq> key (xs ! i)) [0..<length xs])"
proof (induction xs rule: rev_induct)
  case Nil
  show ?case by (simp add: dedup_keys_Nil)
next
  case (snoc x xs)
  let ?ys = "xs @ [x]"
  let ?first = "\<lambda>zs i. \<forall>j<i. key (zs ! j) \<noteq> key (zs ! (i::nat))"
  have old: "filter (?first ?ys) [0..<length xs] = filter (?first xs) [0..<length xs]"
    by (rule filter_cong) (auto simp add: nth_append)
  have mapold: "map (\<lambda>i. key (?ys ! i)) (filter (?first xs) [0..<length xs])
      = map (\<lambda>i. key (xs ! i)) (filter (?first xs) [0..<length xs])"
    by (rule map_cong) (auto simp add: nth_append)
  have new: "?first ?ys (length xs) \<longleftrightarrow> key x \<notin> key ` set xs"
  proof -
    have "?first ?ys (length xs) \<longleftrightarrow> (\<forall>j<length xs. key (xs ! j) \<noteq> key x)"
      by (simp add: nth_append)
    also have "\<dots> \<longleftrightarrow> key x \<notin> key ` set xs"
      by (metis image_iff in_set_conv_nth)
    finally show ?thesis .
  qed
  have "map (\<lambda>i. key (?ys ! i)) (filter (?first ?ys) [0..<length ?ys])
      = map (\<lambda>i. key (?ys ! i)) (filter (?first ?ys) [0..<length xs])
        @ (if ?first ?ys (length xs) then [key (?ys ! length xs)] else [])"
    by simp
  also have "\<dots> = map (\<lambda>i. key (xs ! i)) (filter (?first xs) [0..<length xs])
        @ (if key x \<notin> key ` set xs then [key x] else [])"
    unfolding old mapold new by simp
  also have "\<dots> = dedup_keys key ?ys"
    unfolding dedup_keys_snoc snoc.IH [symmetric] by simp
  finally show ?case ..
qed

lemma dedup_keys_fixed:
  "distinct xs \<Longrightarrow> \<forall>x\<in>set xs. key x = x \<Longrightarrow> dedup_keys key xs = xs"
proof (induction xs rule: rev_induct)
  case Nil
  show ?case by (simp add: dedup_keys_Nil)
next
  case (snoc x xs)
  then have "key ` set xs = set xs"
    by auto
  with snoc show ?case
    by (simp add: dedup_keys_snoc)
qed

lemma dedup_keys_idem:
  assumes "\<forall>x\<in>set xs. key (key x) = key x"
  shows "dedup_keys key (dedup_keys key xs) = dedup_keys key xs"
  using assms by (intro dedup_keys_fixed) (auto simp add: distinct_dedup_keys set_dedup_keys)


lemma dedup_keys_cong:
  "\<forall>x\<in>set xs. key x = key' x \<Longrightarrow> dedup_keys key xs = dedup_keys key' xs"
proof (induction xs rule: rev_induct)
  case Nil
  show ?case by (simp add: dedup_keys_Nil)
next
  case (snoc x xs)
  then have "key ` set xs = key' ` set xs" and "key x = key' x"
    and "dedup_keys key xs = dedup_keys key' xs"
    by auto
  then show ?case
    by (simp add: dedup_keys_snoc)
qed

lemma dedup_keys_single: "dedup_keys key [x] = [key x]"
  using dedup_keys_snoc [of key "[]" x] by (simp add: dedup_keys_Nil)


section \<open>The two loops follow the dedup rule\<close>

lemma email_step_keep_first: "email_step email st = keep_first canonical_email email st"
  by (cases st) (simp add: email_step_def keep_first_def canonical_email_def Let_def)

lemma cleanup_emails_dedup: "cleanup_emails emails = dedup_keys canonical_email emails"
proof -
  have "email_step = keep_first canonical_email"
    by (intro ext) (rule email_step_keep_first)
  then show ?thesis
    by (simp add: cleanup_emails_def dedup_keys_def)
qed

lemma phone_step_keep_first:
  "phone_step lib phone st = keep_first (canonical_phone lib) phone st"
proof (cases st)
  case (Pair seen cleaned_phones)
  define region where "region = (if startswith (strip phone) ''+'' then None else Some ''IN'')"
  show ?thesis
  proof (cases "parse lib phone region")
    case (Inl e)
    then show ?thesis
      unfolding phone_step_def try_block_def keep_first_def canonical_phone_def
        region_def [symmetric] Pair
      by (cases e) (simp add: Let_def)
  next
    case (Inr parsed)
    then show ?thesis
      unfolding phone_step_def try_block_def keep_first_def canonical_phone_def
        region_def [symmetric] Pair
      by (simp add: Let_def)
  qed
qed

lemma cleanup_phone_numbers_dedup:
  "cleanup_phone_numbers lib raw = dedup_keys (canonical_phone lib) raw"
proof -
  have "phone_step lib = keep_first (canonical_phone lib)"
    by (intro ext) (rule phone_step_keep_first)
  then show ?thesis
    by (simp add: cleanup_phone_numbers_def dedup_keys_def)
qed

lemma canonical_phone_unparseable: "unparseable lib phone \<Longrightarrow> canonical_phone lib phone = phone"
  unfolding unparseable_def canonical_phone_def
  by (cases "parse lib phone (if startswith (strip phone) ''+'' then None else Some ''IN'')")
    (simp_all split del: if_split)


lemma try_block_raises:
  "try_block lib phone st = Inl NumberParseException \<longleftrightarrow> unparseable lib phone"
proof (cases st)
  case (Pair seen cleaned_phones)
  define region where "region = (if startswith (strip phone) ''+'' then None else Some ''IN'')"
  show ?thesis
  proof (cases "parse lib phone region")
    case (Inl e)
    then show ?thesis
      unfolding try_block_def unparseable_def region_def [symmetric] Pair
      by (cases e) (simp add: Let_def)
  next
    case (Inr parsed)
    then show ?thesis
      unfolding try_block_def unparseable_def region_def [symmetric] Pair
      by (simp add: Let_def)
  qed
qed

lemma startswith_plus: "startswith s ''+'' \<longleftrightarrow> (\<exists>t. s = CHR ''+'' # t)"
  by (cases s) (simp_all add: startswith_def)


lemma canonical_phone_hint:
  "canonical_phone lib phone =
     (case parse lib phone (if (\<exists>t. strip phone = CHR ''+'' # t) then None else Some ''IN'') of
        Inl e \<Rightarrow> phone
      | Inr parsed \<Rightarrow> format_number lib parsed INTERNATIONAL)"
  unfolding canonical_phone_def startswith_plus ..


section \<open>Claims about cleanup_emails\<close>

text \<open>
  C7. \<open>cleanup_emails\<close> lowercases each entry and strips the whitespace at both ends,
  rejects nothing (the elements of the output are exactly the canonical strings of the
  entries), and appends the canonical string of an entry exactly when no earlier entry
  produced it; on \<open>["A@B.com", " a@b.com ", "c@d.com"]\<close> it returns
  \<open>["a@b.com", "c@d.com"]\<close>.
\<close>

theorem cleanup_emails_canonicalizes:
  "cleanup_emails [] = []
   \<and> cleanup_emails (emails @ [email]) =
       (if strip (lower email) \<in> set (cleanup_emails emails)
        then cleanup_emails emails
        else cleanup_emails emails @ [strip (lower email)])
   \<and> set (cleanup_emails emails) = set (map (\<lambda>e. strip (lower e)) emails)
   \<and> cleanup_emails [''A@B.com'', '' a@b.com '', ''c@d.com''] = [''a@b.com'', ''c@d.com'']"
proof -
  have ex: "cleanup_emails [''A@B.com'', '' a@b.com '', ''c@d.com''] = [''a@b.com'', ''c@d.com'']"
    by code_simp
  have snoc: "cleanup_emails (emails @ [email]) =
       (if strip (lower email) \<in> set (cleanup_emails emails)
        then cleanup_emails emails
        else cleanup_emails emails @ [strip (lower email)])"
    by (simp add: cleanup_emails_dedup dedup_keys_snoc set_dedup_keys)
      (simp add: canonical_email_def)
  have elems: "set (cleanup_emails emails) = set (map (\<lambda>e. strip (lower e)) emails)"
    by (simp add: cleanup_emails_dedup set_dedup_keys) (simp add: canonical_email_def)
  show ?thesis
    using ex snoc elems by (simp add: cleanup_emails_dedup dedup_keys_Nil)
qed

text \<open>
  C10. \<open>cleanup_emails\<close> is idempotent on every input: its output is pairwise distinct
  and each element of it is unchanged by lowercasing and by stripping, so cleaning the
  output again returns it.
\<close>

theorem cleanup_emails_idempotent:
  "cleanup_emails (cleanup_emails x) = cleanup_emails x
   \<and> distinct (cleanup_emails x)
   \<and> list_all (\<lambda>e. lower e = e \<and> strip e = e) (cleanup_emails x)"
proof -
  have idem: "cleanup_emails (cleanup_emails x) = cleanup_emails x"
    by (simp add: cleanup_emails_dedup dedup_keys_idem canonical_email_idem)
  have dist: "distinct (cleanup_emails x)"
    by (simp add: cleanup_emails_dedup distinct_dedup_keys)
  have low: "lower (strip (lower e)) = strip (lower e)" for e
    by (simp add: strip_lower lower_idem)
  have str: "strip (strip (lower e)) = strip (lower e)" for e
    by (rule strip_idem)
  have "list_all (\<lambda>e. lower e = e \<and> strip e = e) (cleanup_emails x)"
    unfolding list_all_iff cleanup_emails_dedup set_dedup_keys
    by (auto simp add: canonical_email_def low str)
  with idem dist show ?thesis
    by simp
qed


section \<open>Claims about the dedup of both cleanups\<close>

text \<open>
  C2, as the code has it. The output of \<open>cleanup_phone_numbers\<close> and of
  \<open>cleanup_emails\<close> has no two equal elements, and it lists the canonical forms of the
  entries in input order, an entry contributing its canonical form exactly when no
  earlier entry of the same call has that canonical form. For emails no two elements of
  the output have the same canonical form either; for phones that holds when the
  canonical form of every entry is its own canonical form.
\<close>

theorem cleanup_first_occurrence_order:
  "distinct (cleanup_phone_numbers lib raw)
   \<and> cleanup_phone_numbers lib raw =
       map (\<lambda>i. canonical_phone lib (raw ! i))
         (filter (\<lambda>i. \<forall>j<i. canonical_phone lib (raw ! j) \<noteq> canonical_phone lib (raw ! i))
            [0..<length raw])
   \<and> ((\<forall>p\<in>set raw. canonical_phone lib (canonical_phone lib p) = canonical_phone lib p)
        \<longrightarrow> distinct (map (canonical_phone lib) (cleanup_phone_numbers lib raw)))
   \<and> distinct (cleanup_emails emails)
   \<and> distinct (map canonical_email (cleanup_emails emails))
   \<and> cleanup_emails emails =
       map (\<lambda>i. canonical_email (emails ! i))
         (filter (\<lambda>i. \<forall>j<i. canonical_email (emails ! j) \<noteq> canonical_email (emails ! i))
            [0..<length emails])"
proof -
  have d1: "distinct (cleanup_phone_numbers lib raw)"
    by (simp add: cleanup_phone_numbers_dedup distinct_dedup_keys)
  have i1: "cleanup_phone_numbers lib raw =
       map (\<lambda>i. canonical_phone lib (raw ! i))
         (filter (\<lambda>i. \<forall>j<i. canonical_phone lib (raw ! j) \<noteq> canonical_phone lib (raw ! i))
            [0..<length raw])"
    unfolding cleanup_phone_numbers_dedup by (rule dedup_keys_index)
  have c1: "distinct (map (canonical_phone lib) (cleanup_phone_numbers lib raw))"
    if idem: "\<forall>p\<in>set raw. canonical_phone lib (canonical_phone lib p) = canonical_phone lib p"
  proof -
    have "map (canonical_phone lib) (cleanup_phone_numbers lib raw)
        = cleanup_phone_numbers lib raw"
      unfolding cleanup_phone_numbers_dedup
      by (rule map_idI) (use idem in \<open>auto simp add: set_dedup_keys\<close>)
    with d1 show ?thesis
      by simp
  qed
  have d2: "distinct (cleanup_emails emails)"
    by (simp add: cleanup_emails_dedup distinct_dedup_keys)
  have "map canonical_email (cleanup_emails emails) = cleanup_emails emails"
    unfolding cleanup_emails_dedup
    by (rule map_idI) (auto simp add: set_dedup_keys canonical_email_idem)
  with d2 have d3: "distinct (map canonical_email (cleanup_emails emails))"
    by simp
  have i2: "cleanup_emails emails =
       map (\<lambda>i. canonical_email (emails ! i))
         (filter (\<lambda>i. \<forall>j<i. canonical_email (emails ! j) \<noteq> canonical_email (emails ! i))
            [0..<length emails])"
    unfolding cleanup_emails_dedup by (rule dedup_keys_index)
  show ?thesis
    by (intro conjI impI) (rule d1 i1 d2 d3 i2 | erule c1)+
qed

theorem cleanup_first_occurrence_order_witness:
  "distinct (cleanup_phone_numbers lenient_lib
       [''9876543210'', ''+919876543210'', ''not-a-number'', ''9876543210''])
   \<and> distinct (map (canonical_phone lenient_lib) (cleanup_phone_numbers lenient_lib
       [''9876543210'', ''+919876543210'', ''not-a-number'', ''9876543210'']))
   \<and> cleanup_phone_numbers lenient_lib
       [''9876543210'', ''+919876543210'', ''not-a-number'', ''9876543210'']
       = [''+91 9876543210'', ''not-a-number'']
   \<and> distinct (map canonical_email (cleanup_emails [''B@x.org '', ''a@x.org'', ''b@x.org'']))
   \<and> cleanup_emails [''B@x.org '', ''a@x.org'', ''b@x.org''] = [''b@x.org'', ''a@x.org'']"
proof -
  note inst = cleanup_first_occurrence_order
    [of lenient_lib "[''9876543210'', ''+919876543210'', ''not-a-number'', ''9876543210'']"
      "[''B@x.org '', ''a@x.org'', ''b@x.org'']"]
  have k1: "canonical_phone lenient_lib ''9876543210'' = ''+91 9876543210''"
    by code_simp
  have k2: "canonical_phone lenient_lib ''+919876543210'' = ''+91 9876543210''"
    by code_simp
  have k3: "canonical_phone lenient_lib ''not-a-number'' = ''not-a-number''"
    by code_simp
  have k4: "canonical_phone lenient_lib ''+91 9876543210'' = ''+91 9876543210''"
    by code_simp
  have idem: "\<forall>p\<in>set [''9876543210'', ''+919876543210'', ''not-a-number'', ''9876543210''].
      canonical_phone lenient_lib (canonical_phone lenient_lib p) = canonical_phone lenient_lib p"
    using k1 k2 k3 k4 by simp
  have p: "cleanup_phone_numbers lenient_lib
       [''9876543210'', ''+919876543210'', ''not-a-number'', ''9876543210'']
       = [''+91 9876543210'', ''not-a-number'']"
    by code_simp
  have e: "cleanup_emails [''B@x.org '', ''a@x.org'', ''b@x.org''] = [''b@x.org'', ''a@x.org'']"
    by code_simp
  note d = inst [THEN conjunct1]
  note c = inst [THEN conjunct2, THEN conjunct2, THEN conjunct1, THEN mp, OF idem]
  note de = inst [THEN conjunct2, THEN conjunct2, THEN conjunct2, THEN conjunct2, THEN conjunct1]
  show ?thesis
    by (intro conjI) (rule d c p de e)+
qed

text \<open>
  C2, as the claim has it, fails for phones. On \<open>["+49 005369", "+49 05369"]\<close> the
  output is \<open>["+49 05369", "+49 5369"]\<close>: two different strings, and the canonical form
  of both is \<open>+49 5369\<close>.
\<close>

theorem cleanup_phone_numbers_canonically_equal_counterexample:
  "cleanup_phone_numbers observed_lib [''+49 005369'', ''+49 05369'']
     = [''+49 05369'', ''+49 5369'']
   \<and> ''+49 05369'' \<noteq> ''+49 5369''
   \<and> canonical_phone observed_lib ''+49 05369'' = ''+49 5369''
   \<and> canonical_phone observed_lib ''+49 5369'' = ''+49 5369''
   \<and> \<not> distinct (map (canonical_phone observed_lib)
         (cleanup_phone_numbers observed_lib [''+49 005369'', ''+49 05369'']))"
proof -
  have out: "cleanup_phone_numbers observed_lib [''+49 005369'', ''+49 05369'']
     = [''+49 05369'', ''+49 5369'']"
    by code_simp
  have differ: "''+49 05369'' \<noteq> ''+49 5369''"
    by simp
  have k1: "canonical_phone observed_lib ''+49 05369'' = ''+49 5369''"
    by code_simp
  have k2: "canonical_phone observed_lib ''+49 5369'' = ''+49 5369''"
    by code_simp
  have clash: "\<not> distinct (map (canonical_phone observed_lib)
         (cleanup_phone_numbers observed_lib [''+49 005369'', ''+49 05369'']))"
    unfolding out by (simp add: k1 k2)
  show ?thesis
    by (intro conjI) (rule out differ k1 k2 clash)+
qed


section \<open>The count over the corpus\<close>

lemma find_with_phones_iff:
  "find_with_phones corpus = filter (\<lambda>doc. get_phones doc \<noteq> []) corpus"
  unfolding find_with_phones_def get_phones_def
  by (rule filter_cong) (auto split: option.splits)

lemma fold_count_step_snd:
  "snd (fold count_step cs st) = snd st \<union> (\<Union>doc\<in>set cs. set (get_phones doc))"
  by (induction cs arbitrary: st) (auto simp add: count_step_def Let_def split: prod.splits)

lemma fold_count_step_snoc:
  "fold count_step (cs @ [doc]) (0, {}) =
     (let (unique_count, all_phones) = fold count_step cs (0, {})
      in (if set (get_phones doc) \<inter> (\<Union>d\<in>set cs. set (get_phones d)) = {}
          then unique_count + 1 else unique_count,
          (\<Union>d\<in>set cs. set (get_phones d)) \<union> set (get_phones doc)))"
proof -
  have "snd (fold count_step cs (0, {})) = (\<Union>d\<in>set cs. set (get_phones d))"
    by (simp add: fold_count_step_snd)
  then show ?thesis
    by (cases "fold count_step cs (0, {})") (simp add: count_step_def Let_def)
qed

lemma fold_count_step_fst_index:
  "fst (fold count_step cs (0, {})) =
     int (length (filter
       (\<lambda>i. set (get_phones (cs ! i)) \<inter> (\<Union>d\<in>set (take i cs). set (get_phones d)) = {})
       [0..<length cs]))"
proof (induction cs rule: rev_induct)
  case Nil
  show ?case by simp
next
  case (snoc doc cs)
  let ?ds = "cs @ [doc]"
  let ?fresh = "\<lambda>zs i. set (get_phones (zs ! i))
      \<inter> (\<Union>d\<in>set (take i zs). set (get_phones d)) = {}"
  have old: "filter (?fresh ?ds) [0..<length cs] = filter (?fresh cs) [0..<length cs]"
    by (rule filter_cong) (auto simp add: nth_append)
  have new: "?fresh ?ds (length cs)
      \<longleftrightarrow> set (get_phones doc) \<inter> (\<Union>d\<in>set cs. set (get_phones d)) = {}"
    by simp
  have "int (length (filter (?fresh ?ds) [0..<length ?ds]))
      = int (length (filter (?fresh ?ds) [0..<length cs]))
        + (if ?fresh ?ds (length cs) then 1 else 0)"
    by simp
  also have "\<dots> = int (length (filter (?fresh cs) [0..<length cs]))
        + (if set (get_phones doc) \<inter> (\<Union>d\<in>set cs. set (get_phones d)) = {} then 1 else 0)"
    unfolding old new ..
  also have "\<dots> = fst (fold count_step ?ds (0, {}))"
    unfolding fold_count_step_snoc snoc.IH [symmetric]
    by (simp add: Let_def split: prod.splits)
  finally show ?case ..
qed

lemma fold_count_step_fst_mono:
  "fst st \<le> fst (fold count_step cs st)"
proof (induction cs arbitrary: st)
  case Nil
  show ?case by simp
next
  case (Cons doc cs)
  have "fst st \<le> fst (count_step doc st)"
    by (cases st) (simp add: count_step_def Let_def)
  also have "\<dots> \<le> fst (fold count_step cs (count_step doc st))"
    by (rule Cons.IH)
  finally show ?case by simp
qed

lemma fold_count_step_fst_upper:
  "fst (fold count_step cs st) \<le> fst st + int (length cs)"
proof (induction cs arbitrary: st)
  case Nil
  show ?case by simp
next
  case (Cons doc cs)
  have "fst (count_step doc st) \<le> fst st + 1"
    by (cases st) (simp add: count_step_def Let_def)
  moreover have "fst (fold count_step cs (count_step doc st))
      \<le> fst (count_step doc st) + int (length cs)"
    by (rule Cons.IH)
  ultimately show ?case by simp
qed


section \<open>Claims about get_unique_contacts_count\<close>

text \<open>
  C1. Over the documents the query returns, in their enumeration order,
  \<open>get_unique_contacts_count\<close> counts exactly the positions whose phone set is disjoint
  from the union of the phone sets of all earlier positions, and returns the union of
  all phone sets; appending a document adds one to the count exactly when its phone set
  is disjoint from the set accumulated so far, and adds its phones to that set in either
  case. For the corpus \<open>[{phones:[A]}, {phones:[A,B]}, {phones:[C]}]\<close> with pairwise
  distinct \<open>A\<close>, \<open>B\<close>, \<open>C\<close> the result is \<open>(2, {A, B, C})\<close>.
\<close>

theorem get_unique_contacts_count_rule:
  "get_unique_contacts_count corpus =
     (int (length (filter
        (\<lambda>i. set (get_phones (find_with_phones corpus ! i))
               \<inter> (\<Union>d\<in>set (take i (find_with_phones corpus)). set (get_phones d)) = {})
        [0..<length (find_with_phones corpus)])),
      (\<Union>d\<in>set (find_with_phones corpus). set (get_phones d)))
   \<and> (get_phones doc \<noteq> [] \<longrightarrow>
        get_unique_contacts_count (corpus @ [doc]) =
          (if set (get_phones doc) \<inter> snd (get_unique_contacts_count corpus) = {}
           then fst (get_unique_contacts_count corpus) + 1
           else fst (get_unique_contacts_count corpus),
           snd (get_unique_contacts_count corpus) \<union> set (get_phones doc)))
   \<and> (A \<noteq> B \<and> A \<noteq> C \<and> B \<noteq> C \<longrightarrow>
        get_unique_contacts_count
          [\<lparr>phones = Some [A]\<rparr>, \<lparr>phones = Some [A, B]\<rparr>, \<lparr>phones = Some [C]\<rparr>]
        = (2, {A, B, C}))"
proof -
  have closed_form: "get_unique_contacts_count corpus =
     (int (length (filter
        (\<lambda>i. set (get_phones (find_with_phones corpus ! i))
               \<inter> (\<Union>d\<in>set (take i (find_with_phones corpus)). set (get_phones d)) = {})
        [0..<length (find_with_phones corpus)])),
      (\<Union>d\<in>set (find_with_phones corpus). set (get_phones d)))"
    unfolding get_unique_contacts_count_def
    by (rule prod_eqI) (simp_all add: fold_count_step_fst_index fold_count_step_snd)
  have step: "get_unique_contacts_count (corpus @ [doc]) =
          (if set (get_phones doc) \<inter> snd (get_unique_contacts_count corpus) = {}
           then fst (get_unique_contacts_count corpus) + 1
           else fst (get_unique_contacts_count corpus),
           snd (get_unique_contacts_count corpus) \<union> set (get_phones doc))"
    if "get_phones doc \<noteq> []"
    using that unfolding get_unique_contacts_count_def find_with_phones_iff
    by (cases "fold count_step (filter (\<lambda>doc. get_phones doc \<noteq> []) corpus) (0, {})")
      (simp add: count_step_def Let_def)
  have example: "get_unique_contacts_count
          [\<lparr>phones = Some [A]\<rparr>, \<lparr>phones = Some [A, B]\<rparr>, \<lparr>phones = Some [C]\<rparr>]
        = (2, {A, B, C})"
    if "A \<noteq> B \<and> A \<noteq> C \<and> B \<noteq> C"
    using that
    by (auto simp add: get_unique_contacts_count_def find_with_phones_def count_step_def
        get_phones_def)
  from closed_form step example show ?thesis
    by blast
qed

theorem get_unique_contacts_count_rule_witness:
  "get_unique_contacts_count
     [\<lparr>phones = Some [''+91 98765 43210'']\<rparr>,
      \<lparr>phones = Some [''+91 98765 43210'', ''+91 91234 56789'']\<rparr>,
      \<lparr>phones = Some [''+1 650-253-0000'']\<rparr>]
   = (2, {''+91 98765 43210'', ''+91 91234 56789'', ''+1 650-253-0000''})
   \<and> get_unique_contacts_count
       ([\<lparr>phones = Some [''+91 98765 43210'']\<rparr>] @ [\<lparr>phones = Some [''+1 650-253-0000'']\<rparr>])
     = (2, {''+91 98765 43210'', ''+1 650-253-0000''})"
proof -
  have distinct3: "''+91 98765 43210'' \<noteq> ''+91 91234 56789''
      \<and> ''+91 98765 43210'' \<noteq> ''+1 650-253-0000''
      \<and> ''+91 91234 56789'' \<noteq> ''+1 650-253-0000''"
    by simp
  have first: "get_unique_contacts_count [\<lparr>phones = Some [''+91 98765 43210'']\<rparr>]
      = (1, {''+91 98765 43210''})"
    by code_simp
  have nonempty: "get_phones \<lparr>phones = Some [''+1 650-253-0000'']\<rparr> \<noteq> []"
    by (simp add: get_phones_def)
  note inst = get_unique_contacts_count_rule
    [of "[\<lparr>phones = Some [''+91 98765 43210'']\<rparr>]" "\<lparr>phones = Some [''+1 650-253-0000'']\<rparr>"
      "''+91 98765 43210''" "''+91 91234 56789''" "''+1 650-253-0000''"]
  from inst distinct3 have ex: "get_unique_contacts_count
     [\<lparr>phones = Some [''+91 98765 43210'']\<rparr>,
      \<lparr>phones = Some [''+91 98765 43210'', ''+91 91234 56789'']\<rparr>,
      \<lparr>phones = Some [''+1 650-253-0000'']\<rparr>]
   = (2, {''+91 98765 43210'', ''+91 91234 56789'', ''+1 650-253-0000''})"
    by blast
  from inst nonempty have "get_unique_contacts_count
       ([\<lparr>phones = Some [''+91 98765 43210'']\<rparr>] @ [\<lparr>phones = Some [''+1 650-253-0000'']\<rparr>])
     = (if set (get_phones \<lparr>phones = Some [''+1 650-253-0000'']\<rparr>)
             \<inter> snd (get_unique_contacts_count [\<lparr>phones = Some [''+91 98765 43210'']\<rparr>]) = {}
        then fst (get_unique_contacts_count [\<lparr>phones = Some [''+91 98765 43210'']\<rparr>]) + 1
        else fst (get_unique_contacts_count [\<lparr>phones = Some [''+91 98765 43210'']\<rparr>]),
        snd (get_unique_contacts_count [\<lparr>phones = Some [''+91 98765 43210'']\<rparr>])
          \<union> set (get_phones \<lparr>phones = Some [''+1 650-253-0000'']\<rparr>))"
    by blast
  then have "get_unique_contacts_count
       ([\<lparr>phones = Some [''+91 98765 43210'']\<rparr>] @ [\<lparr>phones = Some [''+1 650-253-0000'']\<rparr>])
     = (2, {''+91 98765 43210'', ''+1 650-253-0000''})"
    unfolding first by (simp add: get_phones_def insert_commute)
  with ex show ?thesis
    by blast
qed


text \<open>
  C5. The count is at least 0 and at most the number of documents with at least one
  phone number, and a document whose phone list is empty (or missing) changes neither
  the count nor the returned phone set, wherever it stands in the corpus.
\<close>

theorem get_unique_contacts_count_bounds:
  "0 \<le> fst (get_unique_contacts_count corpus)
   \<and> fst (get_unique_contacts_count corpus)
       \<le> int (length (filter (\<lambda>doc. get_phones doc \<noteq> []) corpus))
   \<and> (get_phones doc = [] \<longrightarrow>
        get_unique_contacts_count (before @ [doc] @ after)
          = get_unique_contacts_count (before @ after))"
proof -
  have lower: "0 \<le> fst (get_unique_contacts_count corpus)"
    unfolding get_unique_contacts_count_def
    using fold_count_step_fst_mono [of "(0, {})" "find_with_phones corpus"] by simp
  have upper: "fst (get_unique_contacts_count corpus)
       \<le> int (length (filter (\<lambda>doc. get_phones doc \<noteq> []) corpus))"
    unfolding get_unique_contacts_count_def find_with_phones_iff
    using fold_count_step_fst_upper
      [of "filter (\<lambda>doc. get_phones doc \<noteq> []) corpus" "(0, {})"] by simp
  have skip: "get_unique_contacts_count (before @ [doc] @ after)
          = get_unique_contacts_count (before @ after)" if "get_phones doc = []"
    using that unfolding get_unique_contacts_count_def find_with_phones_iff by simp
  from lower upper skip show ?thesis
    by blast
qed

theorem get_unique_contacts_count_bounds_witness:
  "get_unique_contacts_count
     ([\<lparr>phones = Some [''+91 98765 43210'']\<rparr>] @ [\<lparr>phones = Some []\<rparr>]
        @ [\<lparr>phones = Some [''+91 98765 43210'', ''+91 91234 56789'']\<rparr>])
   = (1, {''+91 98765 43210'', ''+91 91234 56789''})
   \<and> fst (get_unique_contacts_count
       ([\<lparr>phones = Some [''+91 98765 43210'']\<rparr>]
          @ [\<lparr>phones = Some [''+91 98765 43210'', ''+91 91234 56789'']\<rparr>])) \<le> 2"
proof -
  note inst = get_unique_contacts_count_bounds
    [of "[\<lparr>phones = Some [''+91 98765 43210'']\<rparr>]
          @ [\<lparr>phones = Some [''+91 98765 43210'', ''+91 91234 56789'']\<rparr>]"
      "\<lparr>phones = Some []\<rparr>"
      "[\<lparr>phones = Some [''+91 98765 43210'']\<rparr>]"
      "[\<lparr>phones = Some [''+91 98765 43210'', ''+91 91234 56789'']\<rparr>]"]
  have empty: "get_phones \<lparr>phones = Some []\<rparr> = []"
    by (simp add: get_phones_def)
  have without: "get_unique_contacts_count
       ([\<lparr>phones = Some [''+91 98765 43210'']\<rparr>]
          @ [\<lparr>phones = Some [''+91 98765 43210'', ''+91 91234 56789'']\<rparr>])
     = (1, {''+91 98765 43210'', ''+91 91234 56789''})"
    by code_simp
  from inst empty have "get_unique_contacts_count
     ([\<lparr>phones = Some [''+91 98765 43210'']\<rparr>] @ [\<lparr>phones = Some []\<rparr>]
        @ [\<lparr>phones = Some [''+91 98765 43210'', ''+91 91234 56789'']\<rparr>])
     = get_unique_contacts_count
       ([\<lparr>phones = Some [''+91 98765 43210'']\<rparr>]
          @ [\<lparr>phones = Some [''+91 98765 43210'', ''+91 91234 56789'']\<rparr>])"
    by blast
  then show ?thesis
    unfolding without by simp
qed

text \<open>
  C9. When the query returns at least one document, the count is at least 1: the first
  document processed meets the empty accumulated set and is counted.
\<close>

theorem get_unique_contacts_count_first_unique:
  "find_with_phones corpus \<noteq> [] \<Longrightarrow>
     1 \<le> fst (get_unique_contacts_count corpus)
     \<and> count_step (hd (find_with_phones corpus)) (0, {})
         = (1, set (get_phones (hd (find_with_phones corpus))))"
proof -
  assume "find_with_phones corpus \<noteq> []"
  then obtain doc rest where split: "find_with_phones corpus = doc # rest"
    by (cases "find_with_phones corpus") auto
  have first: "count_step doc (0, {}) = (1, set (get_phones doc))"
    by (simp add: count_step_def)
  have "1 \<le> fst (fold count_step rest (1, set (get_phones doc)))"
    using fold_count_step_fst_mono [of "(1, set (get_phones doc))" rest] by simp
  with first split show ?thesis
    by (simp add: get_unique_contacts_count_def)
qed

theorem get_unique_contacts_count_first_unique_witness:
  "find_with_phones [\<lparr>phones = None\<rparr>, \<lparr>phones = Some [''+91 98765 43210'']\<rparr>] \<noteq> []
   \<and> 1 \<le> fst (get_unique_contacts_count
        [\<lparr>phones = None\<rparr>, \<lparr>phones = Some [''+91 98765 43210'']\<rparr>])"
proof -
  have nonempty:
    "find_with_phones [\<lparr>phones = None\<rparr>, \<lparr>phones = Some [''+91 98765 43210'']\<rparr>] \<noteq> []"
    by (simp add: find_with_phones_def)
  from get_unique_contacts_count_first_unique [OF nonempty] nonempty show ?thesis
    by blast
qed

section \<open>Claims about cleanup_phone_numbers\<close>

text \<open>
  C3. \<open>cleanup_phone_numbers\<close> returns a list for every input list and handles every
  entry: the elements of the output are exactly the canonical forms of all entries, and
  the output for a longer input extends the output for a prefix of it. When the \<open>try\<close>
  block raises on an entry, the step returns a state in which the entry itself is
  recorded, so the entry is in the output verbatim and the entries after it are
  processed as well.
\<close>

theorem cleanup_phone_numbers_completes:
  "set (cleanup_phone_numbers lib raw) = canonical_phone lib ` set raw
   \<and> (\<exists>rest. cleanup_phone_numbers lib (before @ after)
         = cleanup_phone_numbers lib before @ rest)
   \<and> (try_block lib phone st = Inl NumberParseException \<longrightarrow>
        canonical_phone lib phone = phone
        \<and> phone_step lib phone st =
            (if phone \<in> fst st then st else (insert phone (fst st), snd st @ [phone]))
        \<and> phone \<in> set (cleanup_phone_numbers lib (before @ [phone] @ after))
        \<and> canonical_phone lib ` set after
            \<subseteq> set (cleanup_phone_numbers lib (before @ [phone] @ after)))"
proof -
  have all: "set (cleanup_phone_numbers lib xs) = canonical_phone lib ` set xs" for xs
    by (simp add: cleanup_phone_numbers_dedup set_dedup_keys)
  have ext: "\<exists>rest. cleanup_phone_numbers lib (before @ after)
         = cleanup_phone_numbers lib before @ rest"
    unfolding cleanup_phone_numbers_dedup by (rule dedup_keys_append_prefix)
  have fallback: "canonical_phone lib phone = phone
        \<and> phone_step lib phone st =
            (if phone \<in> fst st then st else (insert phone (fst st), snd st @ [phone]))
        \<and> phone \<in> set (cleanup_phone_numbers lib (before @ [phone] @ after))
        \<and> canonical_phone lib ` set after
            \<subseteq> set (cleanup_phone_numbers lib (before @ [phone] @ after))"
    if raised: "try_block lib phone st = Inl NumberParseException"
  proof -
    from raised have "unparseable lib phone"
      by (simp add: try_block_raises)
    then have key: "canonical_phone lib phone = phone"
      by (rule canonical_phone_unparseable)
    have "phone_step lib phone st =
            (if phone \<in> fst st then st else (insert phone (fst st), snd st @ [phone]))"
      unfolding phone_step_keep_first by (simp add: keep_first_def key)
    moreover have "phone \<in> set (cleanup_phone_numbers lib (before @ [phone] @ after))"
      unfolding all using key by force
    moreover have "canonical_phone lib ` set after
            \<subseteq> set (cleanup_phone_numbers lib (before @ [phone] @ after))"
      unfolding all by auto
    ultimately show ?thesis
      using key by blast
  qed
  from all [of raw] ext fallback show ?thesis
    by blast
qed

theorem cleanup_phone_numbers_completes_witness:
  "try_block strict_lib ''not-a-number'' ({}, []) = Inl NumberParseException
   \<and> phone_step strict_lib ''not-a-number'' ({}, []) = ({''not-a-number''}, [''not-a-number''])
   \<and> ''not-a-number'' \<in> set (cleanup_phone_numbers strict_lib
        ([''9876543210''] @ [''not-a-number''] @ [''123'']))
   \<and> cleanup_phone_numbers strict_lib ([''9876543210''] @ [''not-a-number''] @ [''123''])
       = [''+91 9876543210'', ''not-a-number'', ''+91 123'']"
proof -
  have raised: "try_block strict_lib ''not-a-number'' ({}, []) = Inl NumberParseException"
    by code_simp
  have out: "cleanup_phone_numbers strict_lib ([''9876543210''] @ [''not-a-number''] @ [''123''])
       = [''+91 9876543210'', ''not-a-number'', ''+91 123'']"
    by code_simp
  note inst = cleanup_phone_numbers_completes
    [of strict_lib "[]" "[''9876543210'']" "[''123'']" "''not-a-number''" "({}, [])"]
  note fallback = inst [THEN conjunct2, THEN conjunct2, THEN mp, OF raised]
  have step: "phone_step strict_lib ''not-a-number'' ({}, [])
      = ({''not-a-number''}, [''not-a-number''])"
    using fallback [THEN conjunct2, THEN conjunct1] by simp
  have present: "''not-a-number'' \<in> set (cleanup_phone_numbers strict_lib
        ([''9876543210''] @ [''not-a-number''] @ [''123'']))"
    by (rule fallback [THEN conjunct2, THEN conjunct2, THEN conjunct1])
  show ?thesis
    by (intro conjI) (rule raised step present out)+
qed



text \<open>
  C6. For each entry the parser is called with no region when the entry, stripped of
  surrounding whitespace, starts with \<open>+\<close>, and with the fixed region \<open>IN\<close> otherwise:
  the output for a single entry is computed from that one call, and two parsers that
  agree on these calls (and format alike) give the same output on every list.
\<close>

theorem cleanup_phone_numbers_region_hint:
  "cleanup_phone_numbers lib [phone] =
     (case parse lib phone (if (\<exists>t. strip phone = CHR ''+'' # t) then None else Some ''IN'') of
        Inl e \<Rightarrow> [phone]
      | Inr parsed \<Rightarrow> [format_number lib parsed INTERNATIONAL])
   \<and> ((\<forall>p\<in>set raw.
          parse lib' p (if (\<exists>t. strip p = CHR ''+'' # t) then None else Some ''IN'')
            = parse lib p (if (\<exists>t. strip p = CHR ''+'' # t) then None else Some ''IN''))
        \<and> format_number lib' = format_number lib
       \<longrightarrow> cleanup_phone_numbers lib' raw = cleanup_phone_numbers lib raw)"
proof -
  note key = canonical_phone_hint
  have single: "cleanup_phone_numbers lib [phone] =
     (case parse lib phone (if (\<exists>t. strip phone = CHR ''+'' # t) then None else Some ''IN'') of
        Inl e \<Rightarrow> [phone]
      | Inr parsed \<Rightarrow> [format_number lib parsed INTERNATIONAL])"
    unfolding cleanup_phone_numbers_dedup dedup_keys_single key
    by (simp split: sum.splits split del: if_split)
  have agree: "cleanup_phone_numbers lib' raw = cleanup_phone_numbers lib raw"
    if same: "\<forall>p\<in>set raw.
          parse lib' p (if (\<exists>t. strip p = CHR ''+'' # t) then None else Some ''IN'')
            = parse lib p (if (\<exists>t. strip p = CHR ''+'' # t) then None else Some ''IN'')"
      and fmt: "format_number lib' = format_number lib"
  proof -
    have "\<forall>p\<in>set raw. canonical_phone lib' p = canonical_phone lib p"
    proof
      fix p
      assume "p \<in> set raw"
      with same
      have eq: "parse lib' p (if (\<exists>t. strip p = CHR ''+'' # t) then None else Some ''IN'')
            = parse lib p (if (\<exists>t. strip p = CHR ''+'' # t) then None else Some ''IN'')"
        by (rule bspec)
      show "canonical_phone lib' p = canonical_phone lib p"
        unfolding key eq fmt ..
    qed
    then show ?thesis
      unfolding cleanup_phone_numbers_dedup by (rule dedup_keys_cong)
  qed
  show ?thesis
    by (intro conjI impI, rule single, elim conjE, rule agree; assumption)
qed

theorem cleanup_phone_numbers_region_hint_witness:
  "cleanup_phone_numbers
     (strict_lib\<lparr>parse := (\<lambda>s r. if r = Some ''US'' then Inr ''1'' else parse strict_lib s r)\<rparr>)
     [''+919876543210'', '' 98765'', ''98765'']
   = cleanup_phone_numbers strict_lib [''+919876543210'', '' 98765'', ''98765'']
   \<and> cleanup_phone_numbers strict_lib [''+919876543210'', '' 98765'', ''98765'']
       = [''+91 9876543210'', '' 98765'', ''+91 98765'']"
proof -
  let ?lib' = "strict_lib\<lparr>parse := (\<lambda>s r. if r = Some ''US'' then Inr ''1'' else parse strict_lib s r)\<rparr>"
  have same: "\<forall>p\<in>set [''+919876543210'', '' 98765'', ''98765''].
          parse ?lib' p (if (\<exists>t. strip p = CHR ''+'' # t) then None else Some ''IN'')
            = parse strict_lib p (if (\<exists>t. strip p = CHR ''+'' # t) then None else Some ''IN'')"
    by simp
  have fmt: "format_number ?lib' = format_number strict_lib"
    by simp
  have out: "cleanup_phone_numbers strict_lib [''+919876543210'', '' 98765'', ''98765'']
       = [''+91 9876543210'', '' 98765'', ''+91 98765'']"
    by code_simp
  note inst = cleanup_phone_numbers_region_hint
    [of strict_lib "''+919876543210''" "[''+919876543210'', '' 98765'', ''98765'']" ?lib']
  have "cleanup_phone_numbers ?lib' [''+919876543210'', '' 98765'', ''98765'']
      = cleanup_phone_numbers strict_lib [''+919876543210'', '' 98765'', ''98765'']"
    by (rule inst [THEN conjunct2, THEN mp, OF conjI [OF same fmt]])
  then show ?thesis
    using out by (intro conjI)
qed

text \<open>
  C8. On a list whose elements are canonical, in that the cleanup of an element alone
  returns that element, cleaning the output again returns the output.
\<close>

theorem cleanup_phone_numbers_fixed_point:
  "\<forall>p\<in>set x. cleanup_phone_numbers lib [p] = [p] \<Longrightarrow>
     cleanup_phone_numbers lib (cleanup_phone_numbers lib x) = cleanup_phone_numbers lib x"
proof -
  assume canon: "\<forall>p\<in>set x. cleanup_phone_numbers lib [p] = [p]"
  then have "\<forall>p\<in>set x. canonical_phone lib p = p"
    by (simp add: cleanup_phone_numbers_dedup dedup_keys_single)
  then have "\<forall>p\<in>set x. canonical_phone lib (canonical_phone lib p) = canonical_phone lib p"
    by simp
  then show ?thesis
    unfolding cleanup_phone_numbers_dedup by (rule dedup_keys_idem)
qed

theorem cleanup_phone_numbers_fixed_point_witness:
  "cleanup_phone_numbers lenient_lib
      (cleanup_phone_numbers lenient_lib
         [''+91 9876543210'', ''not-a-number'', ''+91 9876543210'', ''+91 123''])
     = cleanup_phone_numbers lenient_lib
         [''+91 9876543210'', ''not-a-number'', ''+91 9876543210'', ''+91 123'']
   \<and> cleanup_phone_numbers lenient_lib
         [''+91 9876543210'', ''not-a-number'', ''+91 9876543210'', ''+91 123'']
     = [''+91 9876543210'', ''not-a-number'', ''+91 123'']"
proof -
  have c1: "cleanup_phone_numbers lenient_lib [''+91 9876543210''] = [''+91 9876543210'']"
    by code_simp
  have c2: "cleanup_phone_numbers lenient_lib [''not-a-number''] = [''not-a-number'']"
    by code_simp
  have c3: "cleanup_phone_numbers lenient_lib [''+91 123''] = [''+91 123'']"
    by code_simp
  have canon: "\<forall>p\<in>set [''+91 9876543210'', ''not-a-number'', ''+91 9876543210'', ''+91 123''].
      cleanup_phone_numbers lenient_lib [p] = [p]"
    using c1 c2 c3 by simp
  have out: "cleanup_phone_numbers lenient_lib
         [''+91 9876543210'', ''not-a-number'', ''+91 9876543210'', ''+91 123'']
     = [''+91 9876543210'', ''not-a-number'', ''+91 123'']"
    by code_simp
  show ?thesis
    by (intro conjI) (rule cleanup_phone_numbers_fixed_point [OF canon] out)+
qed

end
